theory Spec2Isabelle
  imports Complex_Main "HOL-Library.Sublist"
begin

section \<open>Python strings\<close>

text \<open>
  A Python \<open>str\<close> is a sequence of Unicode code points. A code point is a natural
  number; \<open>ascii\<close> turns a literal of the program into such a sequence.
\<close>

type_synonym codepoint = nat
type_synonym pystr = "codepoint list"

definition ascii :: "string \<Rightarrow> pystr" where
  "ascii s = map of_char s"

text \<open>
  \<open>str.isspace\<close> for one code point, which is also the set that \<open>str.strip()\<close>
  removes and that \<open>float()\<close> skips around a number.
\<close>

definition py_isspace :: "codepoint \<Rightarrow> bool" where
  "py_isspace c = (c \<in> set [9, 10, 11, 12, 13, 28, 29, 30, 31, 32, 133, 160, 5760,
     8192, 8193, 8194, 8195, 8196, 8197, 8198, 8199, 8200, 8201, 8202,
     8232, 8233, 8239, 8287, 12288])"

definition strip :: "pystr \<Rightarrow> pystr" where
  "strip s = rev (dropWhile py_isspace (rev (dropWhile py_isspace s)))"

text \<open>
  The decimal digits of Unicode (general category Nd) come in runs of ten, each run
  holding the digits 0 to 9 in order. \<open>nd_zeros\<close> lists the first code point of every
  run (Unicode 14.0, the table of CPython 3.11). The regular expression class \<open>\d\<close> and
  the conversion \<open>float()\<close> both read this table.
\<close>

definition nd_zeros :: "codepoint list" where
  "nd_zeros = [48, 1632, 1776, 1984, 2406, 2534, 2662, 2790, 2918, 3046, 3174, 3302,
     3430, 3558, 3664, 3792, 3872, 4160, 4240, 6112, 6160, 6470, 6608, 6784, 6800, 6992,
     7088, 7232, 7248, 42528, 43216, 43264, 43472, 43504, 43600, 44016, 65296, 66720,
     68912, 69734, 69872, 69942, 70096, 70384, 70736, 70864, 71248, 71360, 71472, 71904,
     72016, 72784, 73040, 73120, 92768, 92864, 93008, 120782, 120792, 120802, 120812,
     120822, 123200, 123632, 125264, 130032]"

definition decimal_value :: "codepoint \<Rightarrow> nat option" where
  "decimal_value c =
     (case find (\<lambda>z. z \<le> c \<and> c < z + 10) nd_zeros of
        None \<Rightarrow> None
      | Some z \<Rightarrow> Some (c - z))"

definition is_decimal :: "codepoint \<Rightarrow> bool" where
  "is_decimal c = (decimal_value c \<noteq> None)"

section \<open>Regular expressions of the \<open>re\<close> module\<close>

text \<open>
  The patterns of the program use literals, character sets, \<open>\d\<close>, alternation,
  grouping, \<open>?\<close> and \<open>+\<close>. \<open>Nothing\<close>, \<open>Empty\<close> and \<open>Star\<close> are needed by the
  matcher only.
\<close>

datatype rx =
    Nothing
  | Empty
  | Lit codepoint
  | CharSet "codepoint list"
  | Digit
  | Seq rx rx
  | Alt rx rx
  | Opt rx
  | Plus rx
  | Star rx

text \<open>
  Under \<open>re.IGNORECASE\<close> a literal ASCII letter of a pattern matches its lower and
  upper case forms and the code points whose simple lower case is the letter or that
  the module pairs with it: U+0130 and U+0131 with \<open>i\<close>, U+017F with \<open>s\<close>, U+212A
  with \<open>k\<close>.
\<close>

definition ascii_lower :: "codepoint \<Rightarrow> codepoint" where
  "ascii_lower c = (if 65 \<le> c \<and> c \<le> 90 then c + 32 else c)"

definition ci_variants :: "codepoint \<Rightarrow> codepoint list" where
  "ci_variants a =
     (let l = ascii_lower a in
      if 97 \<le> l \<and> l \<le> 122 then
        [l, l - 32] @ (if l = 105 then [304, 305] else if l = 115 then [383]
                       else if l = 107 then [8490] else [])
      else [a])"

definition lit_match :: "bool \<Rightarrow> codepoint \<Rightarrow> codepoint \<Rightarrow> bool" where
  "lit_match ic a c = (if ic then c \<in> set (ci_variants a) else c = a)"

fun nullable :: "rx \<Rightarrow> bool" where
  "nullable Nothing = False"
| "nullable Empty = True"
| "nullable (Lit a) = False"
| "nullable (CharSet cs) = False"
| "nullable Digit = False"
| "nullable (Seq r s) = (nullable r \<and> nullable s)"
| "nullable (Alt r s) = (nullable r \<or> nullable s)"
| "nullable (Opt r) = True"
| "nullable (Plus r) = nullable r"
| "nullable (Star r) = True"

text \<open>
  \<open>deriv ic c r\<close> matches what may follow \<open>c\<close> in a match of \<open>r\<close>; \<open>ic\<close> is the
  flag \<open>re.IGNORECASE\<close>. The character sets of the program hold no letters, so the
  flag does not change them.
\<close>

fun deriv :: "bool \<Rightarrow> codepoint \<Rightarrow> rx \<Rightarrow> rx" where
  "deriv ic c Nothing = Nothing"
| "deriv ic c Empty = Nothing"
| "deriv ic c (Lit a) = (if lit_match ic a c then Empty else Nothing)"
| "deriv ic c (CharSet cs) = (if c \<in> set cs then Empty else Nothing)"
| "deriv ic c Digit = (if is_decimal c then Empty else Nothing)"
| "deriv ic c (Seq r s) =
     (if nullable r then Alt (Seq (deriv ic c r) s) (deriv ic c s)
      else Seq (deriv ic c r) s)"
| "deriv ic c (Alt r s) = Alt (deriv ic c r) (deriv ic c s)"
| "deriv ic c (Opt r) = deriv ic c r"
| "deriv ic c (Plus r) = Seq (deriv ic c r) (Star r)"
| "deriv ic c (Star r) = Seq (deriv ic c r) (Star r)"

fun re_fullmatch :: "bool \<Rightarrow> rx \<Rightarrow> pystr \<Rightarrow> bool" where
  "re_fullmatch ic r [] = nullable r"
| "re_fullmatch ic r (c # s) = re_fullmatch ic (deriv ic c r) s"

text \<open>\<open>re.search\<close> finds a match when some substring matches the pattern.\<close>

definition re_search :: "bool \<Rightarrow> rx \<Rightarrow> pystr \<Rightarrow> bool" where
  "re_search ic r s = list_ex (\<lambda>t. list_ex (re_fullmatch ic r) (prefixes t)) (suffixes s)"

fun lit_seq :: "pystr \<Rightarrow> rx" where
  "lit_seq [] = Empty"
| "lit_seq [a] = Lit a"
| "lit_seq (a # b # s) = Seq (Lit a) (lit_seq (b # s))"

definition word :: "string \<Rightarrow> rx" where
  "word w = lit_seq (ascii w)"

fun alts :: "rx list \<Rightarrow> rx" where
  "alts [] = Nothing"
| "alts [r] = r"
| "alts (r # q # rs) = Alt r (alts (q # rs))"

section \<open>64-bit floating point numbers\<close>

text \<open>
  A Python \<open>float\<close> is an IEEE 754 binary64 value. \<open>Finite q\<close> is the finite value
  whose exact value is the rational \<open>q\<close>; the two zeros are one value here, as they
  are for Python's \<open>==\<close> and for its comparisons. An integer operand of a comparison is
  compared by its exact value, which is written \<open>Finite\<close> of that integer.
\<close>

datatype double = Finite rat | PInf | NInf | NaN

fun bit_length :: "nat \<Rightarrow> nat" where
  "bit_length n = (if n = 0 then 0 else Suc (bit_length (n div 2)))"

declare bit_length.simps [simp del]

definition pow2 :: "int \<Rightarrow> rat" where
  "pow2 e = (if 0 \<le> e then 2 ^ nat e else 1 / 2 ^ nat (- e))"

text \<open>\<open>binade x\<close> is the exponent \<open>e\<close> with \<open>2 ^ e \<le> \<bar>x\<bar> < 2 ^ (e + 1)\<close>, for \<open>x \<noteq> 0\<close>.\<close>

definition binade :: "rat \<Rightarrow> int" where
  "binade x =
     (let (p, q) = quotient_of \<bar>x\<bar>;
          e = int (bit_length (nat p)) - int (bit_length (nat q))
      in if pow2 e \<le> \<bar>x\<bar> then e else e - 1)"

definition round_half_even :: "rat \<Rightarrow> int" where
  "round_half_even x =
     (let f = \<lfloor>x\<rfloor>; d = x - of_int f
      in if d < 1 / 2 then f
         else if 1 / 2 < d then f + 1
         else if even f then f else f + 1)"

text \<open>
  Rounding of an exact value to the nearest binary64 value, ties to the even
  significand: 53 significant bits, the least exponent \<open>-1022\<close> (subnormal values
  below it), infinity from \<open>2 ^ 1024\<close> on.
\<close>

definition round_to_double :: "rat \<Rightarrow> double" where
  "round_to_double x =
     (if x = 0 then Finite 0
      else let q = pow2 (max (binade x) (- 1022) - 52);
               y = of_int (round_half_even (\<bar>x\<bar> / q)) * q
           in if pow2 1024 \<le> y then (if 0 < x then PInf else NInf)
              else Finite (sgn x * y))"

text \<open>The comparisons \<open><=\<close> and \<open><\<close>; a NaN operand makes both false.\<close>

fun dle :: "double \<Rightarrow> double \<Rightarrow> bool" where
  "dle NaN y = False"
| "dle x NaN = False"
| "dle NInf y = True"
| "dle x PInf = True"
| "dle PInf y = False"
| "dle x NInf = False"
| "dle (Finite a) (Finite b) = (a \<le> b)"

fun dlt :: "double \<Rightarrow> double \<Rightarrow> bool" where
  "dlt NaN y = False"
| "dlt x NaN = False"
| "dlt PInf y = False"
| "dlt x NInf = False"
| "dlt NInf y = True"
| "dlt x PInf = True"
| "dlt (Finite a) (Finite b) = (a < b)"

text \<open>The product of two floats: the exact product, rounded.\<close>

fun dsign :: "double \<Rightarrow> int" where
  "dsign (Finite a) = (if a < 0 then - 1 else if a = 0 then 0 else 1)"
| "dsign PInf = 1"
| "dsign NInf = - 1"
| "dsign NaN = 0"

fun dmul :: "double \<Rightarrow> double \<Rightarrow> double" where
  "dmul NaN y = NaN"
| "dmul x NaN = NaN"
| "dmul (Finite a) (Finite b) = round_to_double (a * b)"
| "dmul x y =
     (let s = dsign x * dsign y
      in if s = 0 then NaN else if 0 < s then PInf else NInf)"

section \<open>The conversion \<open>float()\<close> of a string\<close>

datatype py_exn =
    ValueError string
  | TypeError string
  | OverflowError string
  | AttributeError string
  | DatabaseError string

text \<open>
  The grammar that \<open>float()\<close> accepts, once the surrounding whitespace is gone: a
  sign, then a decimal number with an optional exponent, or \<open>inf\<close>, \<open>infinity\<close> or
  \<open>nan\<close> in any mix of ASCII cases. A single underscore may stand between two digits.
\<close>

definition digitpart :: rx where
  "digitpart = Seq Digit (Star (Seq (Opt (Lit 95)) Digit))"

definition sign_rx :: rx where
  "sign_rx = CharSet [43, 45]"

definition exponent_rx :: rx where
  "exponent_rx = Seq (CharSet [101, 69]) (Seq (Opt sign_rx) digitpart)"

definition number_rx :: rx where
  "number_rx = Alt (Seq (Opt digitpart) (Seq (Lit 46) digitpart)) (Seq digitpart (Opt (Lit 46)))"

fun any_case :: "pystr \<Rightarrow> rx" where
  "any_case [] = Empty"
| "any_case (a # s) = Seq (CharSet [a, a - 32]) (any_case s)"

definition floatvalue_rx :: rx where
  "floatvalue_rx =
     Seq (Opt sign_rx)
       (Alt (Seq number_rx (Opt exponent_rx))
         (Alt (Seq (any_case (ascii ''inf'')) (Opt (any_case (ascii ''inity''))))
              (any_case (ascii ''nan''))))"

definition digits_value :: "pystr \<Rightarrow> nat" where
  "digits_value s =
     foldl (\<lambda>n c. case decimal_value c of None \<Rightarrow> n | Some d \<Rightarrow> 10 * n + d) 0 s"

definition count_digits :: "pystr \<Rightarrow> nat" where
  "count_digits s = length (filter is_decimal s)"

definition pow10 :: "int \<Rightarrow> rat" where
  "pow10 e = (if 0 \<le> e then 10 ^ nat e else 1 / 10 ^ nat (- e))"

text \<open>
  The value of a string of the grammar: the digits of the integer and fraction parts,
  scaled by the exponent, correctly rounded.
\<close>

definition float_value :: "pystr \<Rightarrow> double" where
  "float_value t =
     (let neg = (t \<noteq> [] \<and> hd t = 45);
          body = (if t \<noteq> [] \<and> (hd t = 43 \<or> hd t = 45) then tl t else t);
          low = map ascii_lower body
      in if low = ascii ''inf'' \<or> low = ascii ''infinity'' then (if neg then NInf else PInf)
         else if low = ascii ''nan'' then NaN
         else
           let mant = takeWhile (\<lambda>c. c \<noteq> 101 \<and> c \<noteq> 69) body;
               ex = drop (Suc (length mant)) body;
               ip = takeWhile (\<lambda>c. c \<noteq> 46) mant;
               fp = drop (Suc (length ip)) mant;
               e = (if ex \<noteq> [] \<and> hd ex = 45 then - int (digits_value ex)
                    else int (digits_value ex));
               m = of_nat (digits_value (ip @ fp)) * pow10 (e - int (count_digits fp))
           in round_to_double (if neg then - m else m))"

definition py_float :: "pystr \<Rightarrow> py_exn + double" where
  "py_float s =
     (let t = strip s
      in if re_fullmatch False floatvalue_rx t then Inr (float_value t)
         else Inl (ValueError ''could not convert string to float''))"

section \<open>The input validator\<close>

text \<open>
  \<open>validate_kwh_input\<close> returns the tuple \<open>(is_valid, error_message, kwh_value)\<close>.
  The pattern is \<^verbatim>\<open>-?\d+(?:\.\d+)?\<close>.
\<close>

type_synonym validation = "bool \<times> string option \<times> double option"

definition NUMBER_PATTERN :: rx where
  "NUMBER_PATTERN = Seq (Opt (Lit 45)) (Seq (Plus Digit) (Opt (Seq (Lit 46) (Plus Digit))))"

fun caught :: "py_exn \<Rightarrow> bool" where
  "caught (ValueError m) = True"
| "caught (TypeError m) = True"
| "caught e = False"

text \<open>The \<open>try\<close> block of both validators: conversion, then the two range checks.\<close>

definition convert_and_check :: "pystr \<Rightarrow> py_exn + validation" where
  "convert_and_check trimmed =
     (case py_float trimmed of
        Inl e \<Rightarrow>
          if caught e then Inr (False, Some ''Please enter a valid number.'', None)
          else Inl e
      | Inr kwh \<Rightarrow>
          if dle kwh (Finite 0) then Inr (False, Some ''Value must be greater than 0.'', None)
          else if dlt (Finite 99999) kwh then Inr (False, Some ''Value cannot exceed 99,999.'', None)
          else Inr (True, None, Some kwh))"

text \<open>\<open>validate_kwh_input\<close> of \<open>app.py\<close>.\<close>

definition validate_kwh_input :: "pystr \<Rightarrow> py_exn + validation" where
  "validate_kwh_input kwh_input_str =
     (if kwh_input_str = [] \<or> strip kwh_input_str = [] then
        Inr (False, Some ''Please enter a value.'', None)
      else
        let trimmed = strip kwh_input_str
        in if \<not> re_fullmatch False NUMBER_PATTERN trimmed then
             Inr (False, Some ''Please enter a valid number.'', None)
           else convert_and_check trimmed)"

text \<open>
  \<open>validate_kwh_input\<close> of \<open>app1.py\<close>, which searches the trimmed input for two more
  patterns, both with \<open>re.IGNORECASE\<close>, before the number pattern:
  \<^verbatim>\<open>[<>"\']|script|alert|onerror\<close> and
  \<^verbatim>\<open>(--|;|\/\*|\*\/|xp_|sp_|DROP|INSERT|DELETE|UPDATE)\<close>.
\<close>

definition XSS_PATTERN :: rx where
  "XSS_PATTERN = alts [CharSet [60, 62, 34, 39], word ''script'', word ''alert'', word ''onerror'']"

definition SQL_PATTERN :: rx where
  "SQL_PATTERN = alts [word ''--'', word '';'', word ''/*'', word ''*/'', word ''xp_'',
     word ''sp_'', word ''DROP'', word ''INSERT'', word ''DELETE'', word ''UPDATE'']"

definition app1_validate_kwh_input :: "pystr \<Rightarrow> py_exn + validation" where
  "app1_validate_kwh_input kwh_input_str =
     (if kwh_input_str = [] \<or> strip kwh_input_str = [] then
        Inr (False, Some ''Please enter a value.'', None)
      else
        let trimmed = strip kwh_input_str
        in if re_search True XSS_PATTERN trimmed then
             Inr (False, Some ''Invalid input detected.'', None)
           else if re_search True SQL_PATTERN trimmed then
             Inr (False, Some ''Invalid input detected.'', None)
           else if \<not> re_fullmatch False NUMBER_PATTERN trimmed then
             Inr (False, Some ''Please enter a valid number.'', None)
           else convert_and_check trimmed)"

section \<open>The calculation of \<open>app.py\<close>\<close>

text \<open>
  A float literal of the program denotes the nearest binary64 value:
  \<open>EMISSION_FACTOR_KWH = 0.37\<close>.
\<close>

definition EMISSION_FACTOR_KWH :: double where
  "EMISSION_FACTOR_KWH = round_to_double (37 / 100)"

definition calculate_co2_emission :: "double \<Rightarrow> double" where
  "calculate_co2_emission kwh = dmul kwh EMISSION_FACTOR_KWH"

section \<open>Python values and the calculator classes of \<open>app1.py\<close>\<close>

datatype pyval = PNone | PBool bool | PInt int | PFloat double | PStr pystr

text \<open>\<open>isinstance(value, (int, float))\<close>; \<open>bool\<close> is a subclass of \<open>int\<close>.\<close>

fun is_int_or_float :: "pyval \<Rightarrow> bool" where
  "is_int_or_float (PBool b) = True"
| "is_int_or_float (PInt n) = True"
| "is_int_or_float (PFloat d) = True"
| "is_int_or_float v = False"

text \<open>
  The value a number is compared by: Python compares an \<open>int\<close> with an \<open>int\<close> or a
  \<open>float\<close> exactly. (Only numbers are compared in the program.)
\<close>

fun exact :: "pyval \<Rightarrow> double" where
  "exact (PBool b) = Finite (if b then 1 else 0)"
| "exact (PInt n) = Finite (of_int n)"
| "exact (PFloat d) = d"
| "exact v = NaN"

text \<open>
  \<open>value * factor\<close> with a float factor: an \<open>int\<close> is first converted to the nearest
  float, which raises \<open>OverflowError\<close> when it is too large.
\<close>

definition float_of_int :: "int \<Rightarrow> py_exn + double" where
  "float_of_int n =
     (case round_to_double (of_int n) of
        Finite q \<Rightarrow> Inr (Finite q)
      | d \<Rightarrow> Inl (OverflowError ''int too large to convert to float''))"

fun py_mul :: "pyval \<Rightarrow> double \<Rightarrow> py_exn + double" where
  "py_mul (PFloat d) f = Inr (dmul d f)"
| "py_mul (PInt n) f =
     (case float_of_int n of Inl e \<Rightarrow> Inl e | Inr d \<Rightarrow> Inr (dmul d f))"
| "py_mul (PBool b) f =
     (case float_of_int (if b then 1 else 0) of Inl e \<Rightarrow> Inl e | Inr d \<Rightarrow> Inr (dmul d f))"
| "py_mul v f = Inl (TypeError ''unsupported operand type(s) for *'')"

text \<open>
  Objects live in a store: a list object holds references to its elements, and a
  history entry is the dictionary with the keys \<open>input\<close>, \<open>output\<close>, \<open>timestamp\<close>
  and \<open>calculator_type\<close> (the fields \<open>entry_input\<close> and so on). An address is an index of the store; a new object gets the
  next free index, and nothing is ever freed. A point in time is a natural number.
\<close>

type_synonym addr = nat
type_synonym datetime = nat

record history_entry =
  entry_input :: pyval
  entry_output :: double
  entry_timestamp :: datetime
  entry_calculator_type :: string

datatype obj = ListObj "addr list" | DictObj history_entry

type_synonym heap = "obj list"

definition alloc :: "heap \<Rightarrow> obj \<Rightarrow> addr \<times> heap" where
  "alloc h ob = (length h, h @ [ob])"

definition list_at :: "heap \<Rightarrow> addr \<Rightarrow> addr list option" where
  "list_at h a =
     (if a < length h then (case h ! a of ListObj xs \<Rightarrow> Some xs | DictObj d \<Rightarrow> None)
      else None)"

text \<open>
  The instance attributes. \<open>_calculation_history\<close> is a reference to a list object;
  no method assigns an attribute after \<open>__init__\<close>.
\<close>

record EmissionCalculator =
  emission_factor :: double
  calculation_history :: addr

record ElectricityEmissionCalculator = EmissionCalculator +
  max_kwh :: int
  min_kwh :: int

record TransportEmissionCalculator = EmissionCalculator +
  vehicle_type :: pyval

type_synonym WaterEmissionCalculator = EmissionCalculator

text \<open>\<open>EmissionCalculator.__init__\<close> with \<open>_validate_factor\<close>.\<close>

definition EmissionCalculator_init :: "heap \<Rightarrow> double \<Rightarrow> py_exn + (EmissionCalculator \<times> heap)" where
  "EmissionCalculator_init h factor =
     (let (a, h') = alloc h (ListObj [])
      in if dlt factor (Finite 0) then Inl (ValueError ''Emission factor must be non-negative'')
         else Inr (\<lparr>emission_factor = factor, calculation_history = a\<rparr>, h'))"

text \<open>\<open>get_history\<close> returns \<open>self._calculation_history.copy()\<close>: a new list object.\<close>

definition get_history :: "heap \<Rightarrow> 'a EmissionCalculator_scheme \<Rightarrow> py_exn + (addr \<times> heap)" where
  "get_history h self =
     (case list_at h (calculation_history self) of
        None \<Rightarrow> Inl (AttributeError ''copy'')
      | Some xs \<Rightarrow> Inr (alloc h (ListObj xs)))"

text \<open>
  \<open>_record_calculation\<close>; \<open>cls\<close> is \<open>self.__class__.__name__\<close> and \<open>now\<close> is what
  \<open>datetime.now()\<close> returns.
\<close>

definition record_calculation ::
  "heap \<Rightarrow> 'a EmissionCalculator_scheme \<Rightarrow> string \<Rightarrow> pyval \<Rightarrow> double \<Rightarrow> datetime \<Rightarrow> py_exn + heap" where
  "record_calculation h self cls val result now =
     (let (d, h') = alloc h (DictObj \<lparr>entry_input = val, entry_output = result,
                                      entry_timestamp = now, entry_calculator_type = cls\<rparr>)
      in case list_at h' (calculation_history self) of
           None \<Rightarrow> Inl (AttributeError ''append'')
         | Some xs \<Rightarrow> Inr (h'[calculation_history self := ListObj (xs @ [d])]))"

text \<open>The shared body of the three \<open>calculate\<close> methods, after \<open>validate_input\<close>.\<close>

definition multiply_and_record ::
  "heap \<Rightarrow> 'a EmissionCalculator_scheme \<Rightarrow> string \<Rightarrow> pyval \<Rightarrow> datetime \<Rightarrow> py_exn + (double \<times> heap)" where
  "multiply_and_record h self cls val now =
     (case py_mul val (emission_factor self) of
        Inl e \<Rightarrow> Inl e
      | Inr result \<Rightarrow>
          (case record_calculation h self cls val result now of
             Inl e \<Rightarrow> Inl e
           | Inr h' \<Rightarrow> Inr (result, h')))"

text \<open>\<open>str\<close> of an integer, for the message of the electricity calculator.\<close>

fun str_of_nat :: "nat \<Rightarrow> string" where
  "str_of_nat n =
     (if n < 10 then [char_of (48 + n)] else str_of_nat (n div 10) @ [char_of (48 + n mod 10)])"

declare str_of_nat.simps [simp del]

definition str_of_int :: "int \<Rightarrow> string" where
  "str_of_int i = (if i < 0 then CHR ''-'' # str_of_nat (nat (- i)) else str_of_nat (nat i))"

subsection \<open>\<open>ElectricityEmissionCalculator\<close>\<close>

definition ElectricityEmissionCalculator_init ::
  "heap \<Rightarrow> py_exn + (ElectricityEmissionCalculator \<times> heap)" where
  "ElectricityEmissionCalculator_init h =
     (case EmissionCalculator_init h (round_to_double (37 / 100)) of
        Inl e \<Rightarrow> Inl e
      | Inr (base, h') \<Rightarrow>
          Inr (EmissionCalculator.extend base
                 (ElectricityEmissionCalculator.fields 99999 0), h'))"

definition ElectricityEmissionCalculator_validate_input ::
  "ElectricityEmissionCalculator \<Rightarrow> pyval \<Rightarrow> py_exn + bool" where
  "ElectricityEmissionCalculator_validate_input self val =
     (if \<not> is_int_or_float val then Inl (TypeError ''Input must be numeric'')
      else if dle (exact val) (Finite (of_int (min_kwh self))) then
        Inl (ValueError ''Value must be greater than 0'')
      else if dlt (Finite (of_int (max_kwh self))) (exact val) then
        Inl (ValueError (''Value cannot exceed '' @ str_of_int (max_kwh self)))
      else Inr True)"

definition ElectricityEmissionCalculator_calculate ::
  "heap \<Rightarrow> ElectricityEmissionCalculator \<Rightarrow> pyval \<Rightarrow> datetime \<Rightarrow> py_exn + (double \<times> heap)" where
  "ElectricityEmissionCalculator_calculate h self val now =
     (case ElectricityEmissionCalculator_validate_input self val of
        Inl e \<Rightarrow> Inl e
      | Inr ok \<Rightarrow> multiply_and_record h self ''ElectricityEmissionCalculator'' val now)"

subsection \<open>\<open>TransportEmissionCalculator\<close>\<close>

definition VEHICLE_FACTORS :: "(pyval \<times> double) list" where
  "VEHICLE_FACTORS =
     [(PStr (ascii ''car''), round_to_double (21 / 100)),
      (PStr (ascii ''bus''), round_to_double (89 / 1000)),
      (PStr (ascii ''train''), round_to_double (41 / 1000)),
      (PStr (ascii ''bike''), round_to_double 0),
      (PStr (ascii ''electric_car''), round_to_double (5 / 100))]"

text \<open>\<open>factor = self.VEHICLE_FACTORS.get(vehicle_type, 0.21)\<close>\<close>

definition TransportEmissionCalculator_init ::
  "heap \<Rightarrow> pyval \<Rightarrow> py_exn + (TransportEmissionCalculator \<times> heap)" where
  "TransportEmissionCalculator_init h vt =
     (let factor = (case map_of VEHICLE_FACTORS vt of
                      None \<Rightarrow> round_to_double (21 / 100)
                    | Some f \<Rightarrow> f)
      in case EmissionCalculator_init h factor of
           Inl e \<Rightarrow> Inl e
         | Inr (base, h') \<Rightarrow>
             Inr (EmissionCalculator.extend base (TransportEmissionCalculator.fields vt), h'))"

definition TransportEmissionCalculator_validate_input ::
  "TransportEmissionCalculator \<Rightarrow> pyval \<Rightarrow> py_exn + bool" where
  "TransportEmissionCalculator_validate_input self val =
     (if \<not> is_int_or_float val then Inl (TypeError ''Distance must be numeric'')
      else if dlt (exact val) (Finite 0) then Inl (ValueError ''Distance cannot be negative'')
      else if dlt (Finite 10000) (exact val) then Inl (ValueError ''Distance too large'')
      else Inr True)"

definition TransportEmissionCalculator_calculate ::
  "heap \<Rightarrow> TransportEmissionCalculator \<Rightarrow> pyval \<Rightarrow> datetime \<Rightarrow> py_exn + (double \<times> heap)" where
  "TransportEmissionCalculator_calculate h self val now =
     (case TransportEmissionCalculator_validate_input self val of
        Inl e \<Rightarrow> Inl e
      | Inr ok \<Rightarrow> multiply_and_record h self ''TransportEmissionCalculator'' val now)"

subsection \<open>\<open>WaterEmissionCalculator\<close>\<close>

definition WaterEmissionCalculator_init :: "heap \<Rightarrow> py_exn + (WaterEmissionCalculator \<times> heap)" where
  "WaterEmissionCalculator_init h = EmissionCalculator_init h (round_to_double (15 / 10000))"

definition WaterEmissionCalculator_validate_input ::
  "WaterEmissionCalculator \<Rightarrow> pyval \<Rightarrow> py_exn + bool" where
  "WaterEmissionCalculator_validate_input self val =
     (if \<not> is_int_or_float val then Inl (TypeError ''Input must be numeric'')
      else if dle (exact val) (Finite 0) then Inl (ValueError ''Value must be positive'')
      else if dlt (Finite 100000) (exact val) then Inl (ValueError ''Value too large'')
      else Inr True)"

definition WaterEmissionCalculator_calculate ::
  "heap \<Rightarrow> WaterEmissionCalculator \<Rightarrow> pyval \<Rightarrow> datetime \<Rightarrow> py_exn + (double \<times> heap)" where
  "WaterEmissionCalculator_calculate h self val now =
     (case WaterEmissionCalculator_validate_input self val of
        Inl e \<Rightarrow> Inl e
      | Inr ok \<Rightarrow> multiply_and_record h self ''WaterEmissionCalculator'' val now)"

section \<open>The history store and the calculator pages\<close>

text \<open>
  The table \<open>calculations\<close>. \<open>insert_ok\<close> says whether an \<open>INSERT\<close> into it works;
  \<open>save_calculation\<close> catches every exception of the database and returns \<open>False\<close>.
  The table of \<open>app.py\<close> has no category column.
\<close>

record calculation_row =
  row_user_id :: nat
  row_category :: "string option"
  row_input :: pyval
  row_co2 :: double

record history_store =
  rows :: "calculation_row list"
  insert_ok :: bool

definition save_calculation ::
  "history_store \<Rightarrow> nat \<Rightarrow> pyval \<Rightarrow> double \<Rightarrow> bool \<times> history_store" where
  "save_calculation db user_id kwh_input co2_result =
     (if insert_ok db then
        (True, db\<lparr>rows := rows db @ [\<lparr>row_user_id = user_id, row_category = None,
                                        row_input = kwh_input, row_co2 = co2_result\<rparr>]\<rparr>)
      else (False, db))"

definition app1_save_calculation ::
  "history_store \<Rightarrow> nat \<Rightarrow> string \<Rightarrow> pyval \<Rightarrow> double \<Rightarrow> bool \<times> history_store" where
  "app1_save_calculation db user_id category input_value co2_result =
     (if insert_ok db then
        (True, db\<lparr>rows := rows db @ [\<lparr>row_user_id = user_id, row_category = Some category,
                                        row_input = input_value, row_co2 = co2_result\<rparr>]\<rparr>)
      else (False, db))"

text \<open>
  What a request to \<open>/calculator\<close> produces: a redirect, the rendered page with the
  variables \<open>error\<close>, \<open>result\<close> and \<open>kwh_input\<close> of the template and the messages
  flashed (text and category), or an exception that leaves the handler, which the
  framework answers with status 500.
\<close>

record page =
  page_error :: "string option"
  page_result :: "double option"
  page_kwh_input :: pystr
  page_flashes :: "(string \<times> string) list"

datatype response =
    Redirect string "(string \<times> string) list"
  | Render page
  | ServerError py_exn

fun str_of_exn :: "py_exn \<Rightarrow> string" where
  "str_of_exn (ValueError m) = m"
| "str_of_exn (TypeError m) = m"
| "str_of_exn (OverflowError m) = m"
| "str_of_exn (AttributeError m) = m"
| "str_of_exn (DatabaseError m) = m"

text \<open>
  \<open>calculator\<close> of \<open>app.py\<close>. \<open>session_user\<close> is \<open>session['user_id']\<close> when present,
  \<open>is_post\<close> says that the method is POST, \<open>kwh_field\<close> is the form field \<open>kwh\<close>.
\<close>

definition calculator ::
  "nat option \<Rightarrow> bool \<Rightarrow> pystr option \<Rightarrow> history_store \<Rightarrow> response \<times> history_store" where
  "calculator session_user is_post kwh_field db =
     (case session_user of
        None \<Rightarrow> (Redirect ''login'' [], db)
      | Some user_id \<Rightarrow>
          if \<not> is_post then
            (Render \<lparr>page_error = None, page_result = None, page_kwh_input = [],
                     page_flashes = []\<rparr>, db)
          else
            let kwh_input = strip (case kwh_field of None \<Rightarrow> [] | Some s \<Rightarrow> s)
            in case validate_kwh_input kwh_input of
                 Inl e \<Rightarrow> (ServerError e, db)
               | Inr (is_valid, error_message, kwh_value) \<Rightarrow>
                   if \<not> is_valid then
                     (Render \<lparr>page_error = error_message, page_result = None,
                              page_kwh_input = kwh_input, page_flashes = []\<rparr>, db)
                   else
                     (case kwh_value of
                        None \<Rightarrow> (ServerError (TypeError ''unsupported operand type(s) for *''), db)
                      | Some kwh \<Rightarrow>
                          let result = calculate_co2_emission kwh;
                              (saved, db') = save_calculation db user_id (PFloat kwh) result
                          in (Render \<lparr>page_error = None, page_result = Some result,
                                page_kwh_input = kwh_input,
                                page_flashes =
                                  [if saved then (''Calculation saved to your history!'', ''success'')
                                   else (''Calculation completed but could not be saved to history.'',
                                         ''warning'')]\<rparr>, db')))"

text \<open>
  \<open>calculator\<close> of \<open>app1.py\<close>, with its decorators \<open>require_login\<close> and
  \<open>monitor_performance\<close>: the latter writes a row of the table \<open>quality_metrics\<close> once
  the handler has returned and lets an exception of that write pass; \<open>metrics_ok\<close> says
  whether the write works. The \<open>try\<close> block of the handler catches \<open>ValueError\<close> and
  \<open>TypeError\<close>.
\<close>

definition app1_calculator_body ::
  "nat \<Rightarrow> pystr option \<Rightarrow> history_store \<Rightarrow> heap \<Rightarrow> datetime \<Rightarrow> response \<times> history_store" where
  "app1_calculator_body user_id kwh_field db h now =
     (let kwh_input = strip (case kwh_field of None \<Rightarrow> [] | Some s \<Rightarrow> s)
      in case app1_validate_kwh_input kwh_input of
           Inl e \<Rightarrow> (ServerError e, db)
         | Inr (is_valid, error_message, kwh_value) \<Rightarrow>
             if \<not> is_valid then
               (Render \<lparr>page_error = error_message, page_result = None,
                        page_kwh_input = kwh_input, page_flashes = []\<rparr>, db)
             else
               let val = (case kwh_value of None \<Rightarrow> PNone | Some kwh \<Rightarrow> PFloat kwh);
                   attempt =
                     (case ElectricityEmissionCalculator_init h of
                        Inl e \<Rightarrow> Inl e
                      | Inr (calc, h1) \<Rightarrow>
                          (case ElectricityEmissionCalculator_validate_input calc val of
                             Inl e \<Rightarrow> Inl e
                           | Inr ok \<Rightarrow> ElectricityEmissionCalculator_calculate h1 calc val now))
               in case attempt of
                    Inl e \<Rightarrow>
                      if caught e then
                        (Render \<lparr>page_error = Some (str_of_exn e), page_result = None,
                                 page_kwh_input = kwh_input, page_flashes = []\<rparr>, db)
                      else (ServerError e, db)
                  | Inr (result, h2) \<Rightarrow>
                      let (saved, db') =
                            app1_save_calculation db user_id ''electricity'' val result
                      in (Render \<lparr>page_error = None, page_result = Some result,
                            page_kwh_input = kwh_input,
                            page_flashes =
                              (if saved then [(''Calculation saved successfully!'', ''success'')]
                               else [])\<rparr>, db'))"

definition app1_calculator ::
  "nat option \<Rightarrow> bool \<Rightarrow> pystr option \<Rightarrow> history_store \<Rightarrow> bool \<Rightarrow> heap \<Rightarrow> datetime
     \<Rightarrow> response \<times> history_store" where
  "app1_calculator session_user is_post kwh_field db metrics_ok h now =
     (case session_user of
        None \<Rightarrow> (Redirect ''login'' [(''Please login to access this page.'', ''error'')], db)
      | Some user_id \<Rightarrow>
          let (resp, db') =
                (if \<not> is_post then
                   (Render \<lparr>page_error = None, page_result = None, page_kwh_input = [],
                            page_flashes = []\<rparr>, db)
                 else app1_calculator_body user_id kwh_field db h now)
          in case resp of
               ServerError e \<Rightarrow> (ServerError e, db')
             | r \<Rightarrow>
                 if metrics_ok then (r, db')
                 else (ServerError (DatabaseError ''unable to open database file''), db'))"

section \<open>The endpoint \<open>/api/calculate\<close> of \<open>app1.py\<close>\<close>

text \<open>
  \<open>round(result, 2)\<close>: the nearest number with two decimals (ties to even, on the exact
  value), as a float.
\<close>

fun py_round2 :: "double \<Rightarrow> double" where
  "py_round2 (Finite q) = round_to_double (of_int (round_half_even (q * 100)) / 100)"
| "py_round2 d = d"

definition use_calculator ::
  "py_exn + ('c \<times> heap) \<Rightarrow> ('c \<Rightarrow> pyval \<Rightarrow> py_exn + bool)
     \<Rightarrow> (heap \<Rightarrow> 'c \<Rightarrow> pyval \<Rightarrow> datetime \<Rightarrow> py_exn + (double \<times> heap))
     \<Rightarrow> pyval \<Rightarrow> datetime \<Rightarrow> py_exn + double" where
  "use_calculator made validate calculate val now =
     (case made of
        Inl e \<Rightarrow> Inl e
      | Inr (calc, h1) \<Rightarrow>
          (case validate calc val of
             Inl e \<Rightarrow> Inl e
           | Inr ok \<Rightarrow>
               (case calculate h1 calc val now of
                  Inl e \<Rightarrow> Inl e
                | Inr (result, h2) \<Rightarrow> Inr result)))"

text \<open>
  The selection of the calculator, then \<open>calc.validate_input(value)\<close> and
  \<open>calc.calculate(value)\<close>; \<open>None\<close> is the branch \<open>else\<close> of the selection.
\<close>

definition select_and_calculate ::
  "heap \<Rightarrow> (pystr \<rightharpoonup> pyval) \<Rightarrow> pyval \<Rightarrow> pyval \<Rightarrow> datetime \<Rightarrow> (py_exn + double) option" where
  "select_and_calculate h data category val now =
     (if category = PStr (ascii ''electricity'') then
        Some (use_calculator (ElectricityEmissionCalculator_init h)
                ElectricityEmissionCalculator_validate_input
                ElectricityEmissionCalculator_calculate val now)
      else if category = PStr (ascii ''transport'') then
        let vehicle_type = (case data (ascii ''vehicle_type'') of
                              None \<Rightarrow> PStr (ascii ''car'') | Some v \<Rightarrow> v)
        in Some (use_calculator (TransportEmissionCalculator_init h vehicle_type)
                   TransportEmissionCalculator_validate_input
                   TransportEmissionCalculator_calculate val now)
      else if category = PStr (ascii ''water'') then
        Some (use_calculator (WaterEmissionCalculator_init h)
                WaterEmissionCalculator_validate_input
                WaterEmissionCalculator_calculate val now)
      else None)"

text \<open>
  The JSON bodies of the endpoint: \<open>{'error': m}\<close>, \<open>{'success': False, 'error': m}\<close>
  and the success body with \<open>category\<close>, \<open>input_value\<close>, \<open>co2_emission\<close> and \<open>unit\<close>
  (its \<open>response_time\<close>, read from the clock, is left out). \<open>log_ok\<close> says whether the
  \<open>INSERT\<close> into \<open>api_logs\<close> works.
\<close>

datatype api_body =
    ErrorBody string
  | FailureBody string
  | SuccessBody pyval pyval double string

definition api_calculate ::
  "heap \<Rightarrow> (pystr \<rightharpoonup> pyval) \<Rightarrow> datetime \<Rightarrow> bool \<Rightarrow> api_body \<times> nat" where
  "api_calculate h data now log_ok =
     (let category = (case data (ascii ''category'') of
                        None \<Rightarrow> PStr (ascii ''electricity'') | Some c \<Rightarrow> c);
          val = (case data (ascii ''value'') of None \<Rightarrow> PNone | Some v \<Rightarrow> v)
      in if val = PNone then (ErrorBody ''Value is required'', 400)
         else
           (case select_and_calculate h data category val now of
              None \<Rightarrow> (ErrorBody ''Invalid category'', 400)
            | Some (Inl e) \<Rightarrow>
                if caught e then (FailureBody (str_of_exn e), 400)
                else (FailureBody ''Internal server error'', 500)
            | Some (Inr result) \<Rightarrow>
                if log_ok then (SuccessBody category val (py_round2 result) ''kg CO2e'', 200)
                else (FailureBody ''Internal server error'', 500)))"

section \<open>The specification's validator\<close>

text \<open>
  The validator as the specification words it, to be compared with the two
  \<open>validate_kwh_input\<close> above. A plain decimal is an optional leading \<open>-\<close>, one or
  more digits, and optionally a \<open>.\<close> followed by one or more digits; it denotes the
  number its digits spell, and parsing rounds that number to the nearest float.
\<close>

definition strip_sign :: "pystr \<Rightarrow> pystr" where
  "strip_sign t = (case t of [] \<Rightarrow> [] | c # u \<Rightarrow> if c = 45 then u else t)"

definition spec_plain_decimal :: "pystr \<Rightarrow> bool" where
  "spec_plain_decimal t =
     (let body = strip_sign t;
          ip = takeWhile is_decimal body;
          rest = dropWhile is_decimal body
      in ip \<noteq> [] \<and>
         (rest = [] \<or> (hd rest = 46 \<and> tl rest \<noteq> [] \<and> list_all is_decimal (tl rest))))"

definition spec_decimal_number :: "pystr \<Rightarrow> rat" where
  "spec_decimal_number t =
     (let body = strip_sign t;
          ip = takeWhile is_decimal body;
          fs = tl (dropWhile is_decimal body);
          magnitude = of_nat (digits_value ip) + of_nat (digits_value fs) / 10 ^ length fs
      in if t \<noteq> [] \<and> hd t = 45 then - magnitude else magnitude)"

definition spec_parse :: "pystr \<Rightarrow> double" where
  "spec_parse t = round_to_double (spec_decimal_number t)"

definition spec_validate :: "pystr \<Rightarrow> validation" where
  "spec_validate raw =
     (let t = strip raw
      in if t = [] then (False, Some ''Please enter a value.'', None)
         else if \<not> spec_plain_decimal t then (False, Some ''Please enter a valid number.'', None)
         else
           let v = spec_parse t
           in if dle v (Finite 0) then (False, Some ''Value must be greater than 0.'', None)
              else if dlt (Finite 99999) v then (False, Some ''Value cannot exceed 99,999.'', None)
              else (True, None, Some v))"

text \<open>The two searches that \<open>app1.py\<close> adds.\<close>

definition app1_guard :: "pystr \<Rightarrow> bool" where
  "app1_guard t = (re_search True XSS_PATTERN t \<or> re_search True SQL_PATTERN t)"

section \<open>The language of a regular expression\<close>

text \<open>
  The strings a pattern matches, as a set; the matcher is proved to decide it. The
  shape \<open>number_form\<close> splits a plain decimal into sign, integer digits and fraction.
\<close>

inductive_set star :: "pystr set \<Rightarrow> pystr set" for A :: "pystr set" where
  star_empty: "[] \<in> star A"
| star_step: "u \<in> A \<Longrightarrow> v \<in> star A \<Longrightarrow> u @ v \<in> star A"

fun lang :: "bool \<Rightarrow> rx \<Rightarrow> pystr set" where
  "lang ic Nothing = {}"
| "lang ic Empty = {[]}"
| "lang ic (Lit a) = {[c] | c. lit_match ic a c}"
| "lang ic (CharSet cs) = {[c] | c. c \<in> set cs}"
| "lang ic Digit = {[c] | c. is_decimal c}"
| "lang ic (Seq r s) = {u @ v | u v. u \<in> lang ic r \<and> v \<in> lang ic s}"
| "lang ic (Alt r s) = lang ic r \<union> lang ic s"
| "lang ic (Opt r) = insert [] (lang ic r)"
| "lang ic (Plus r) = {u @ v | u v. u \<in> lang ic r \<and> v \<in> star (lang ic r)}"
| "lang ic (Star r) = star (lang ic r)"

definition number_form :: "pystr \<Rightarrow> pystr \<Rightarrow> pystr \<Rightarrow> pystr \<Rightarrow> bool" where
  "number_form t sg ds fr \<longleftrightarrow>
     t = sg @ ds @ fr \<and> (sg = [] \<or> sg = [45]) \<and> ds \<noteq> [] \<and> list_all is_decimal ds \<and>
     (fr = [] \<or> (\<exists>fs. fr = 46 # fs \<and> fs \<noteq> [] \<and> list_all is_decimal fs))"

text \<open>The four strings that the specification makes contractual.\<close>

definition contractual_messages :: "string list" where
  "contractual_messages =
     [''Please enter a value.'', ''Please enter a valid number.'',
      ''Value must be greater than 0.'', ''Value cannot exceed 99,999.'']"

section \<open>Rounding to the nearest float\<close>

text \<open>
  \<open>binade\<close> finds the power of two below a number, and rounding is decided by the
  integer nearest to the scaled number. With these two facts the float nearest to a
  given rational is checked by arithmetic on rationals.
\<close>

lemma pow2_powi: "pow2 e = 2 powi e"
  by (simp add: pow2_def power_int_def inverse_eq_divide power_one_over)

lemma pow2_pos: "0 < pow2 e"
  by (simp add: pow2_powi)

lemma pow2_add: "pow2 (a + b) = pow2 a * pow2 b"
  by (simp add: pow2_powi power_int_add)

lemma pow2_less_iff: "pow2 a < pow2 b \<longleftrightarrow> a < b"
proof
  assume l: "pow2 a < pow2 b"
  show "a < b"
  proof (rule ccontr)
    assume "\<not> a < b"
    then have "b \<le> a" by simp
    then have "pow2 b \<le> pow2 a"
      unfolding pow2_powi by (intro power_int_increasing) simp_all
    with l show False by simp
  qed
next
  assume "a < b"
  then show "pow2 a < pow2 b"
    unfolding pow2_powi by (intro power_int_strict_increasing) simp_all
qed

lemma pow2_of_nat: "pow2 (int n) = 2 ^ n"
  by (simp add: pow2_def)

lemma pow2_diff: "pow2 (a - b) = pow2 a / pow2 b"
  by (simp add: pow2_powi power_int_diff)

lemma bit_length_bounds:
  "0 < n \<Longrightarrow> 2 ^ (bit_length n - 1) \<le> n \<and> n < 2 ^ bit_length n"
proof (induction n rule: bit_length.induct)
  case (1 n)
  show ?case
  proof (cases "n div 2 = 0")
    case True
    with 1 have "n = 1" by (simp add: div_eq_0_iff) 
    then show ?thesis by (simp add: bit_length.simps)
  next
    case False
    then have pos: "0 < n div 2" by simp
    have n0: "n \<noteq> 0" using 1 by simp
    have ih: "2 ^ (bit_length (n div 2) - 1) \<le> n div 2 \<and> n div 2 < 2 ^ bit_length (n div 2)"
      using 1(1) [OF n0 pos] .
    have bl: "bit_length n = Suc (bit_length (n div 2))"
      using n0 by (subst bit_length.simps) simp
    have bpos: "0 < bit_length (n div 2)"
      using pos by (subst bit_length.simps) simp
    then obtain k where k: "bit_length (n div 2) = Suc k" by (cases "bit_length (n div 2)") auto
    from ih k have "2 * 2 ^ k \<le> n" "n < 2 * 2 ^ Suc k" by (simp_all; presburger)+
    then show ?thesis by (simp add: bl k)
  qed
qed

lemma binade_bounds:
  assumes "x \<noteq> 0"
  shows "pow2 (binade x) \<le> \<bar>x\<bar> \<and> \<bar>x\<bar> < pow2 (binade x + 1)"
proof -
  obtain p q where pq: "quotient_of \<bar>x\<bar> = (p, q)" by (cases "quotient_of \<bar>x\<bar>")
  have q: "0 < q" using pq by (rule quotient_of_denom_pos)
  have x: "\<bar>x\<bar> = of_int p / of_int q" using pq by (rule quotient_of_div)
  have p: "0 < p"
  proof -
    have "0 < \<bar>x\<bar>" using assms by simp
    then have "0 < (of_int p :: rat) / of_int q" using x by simp
    then show ?thesis using q by (simp add: zero_less_divide_iff)
  qed
  define bp where "bp = bit_length (nat p)"
  define bq where "bq = bit_length (nat q)"
  define e where "e = int bp - int bq"
  have bpb: "2 ^ (bp - 1) \<le> nat p" "nat p < 2 ^ bp"
    using bit_length_bounds [of "nat p"] p by (simp_all add: bp_def)
  have bqb: "2 ^ (bq - 1) \<le> nat q" "nat q < 2 ^ bq"
    using bit_length_bounds [of "nat q"] q by (simp_all add: bq_def)
  have bp1: "1 \<le> bp" using bpb(2) p by (cases bp) auto
  have bq1: "1 \<le> bq" using bqb(2) q by (cases bq) auto
  have P1: "(2::rat) ^ (bp - 1) \<le> of_int p"
  proof -
    have "(of_nat (2 ^ (bp - 1)) :: rat) \<le> of_nat (nat p)" using bpb(1) by (simp only: of_nat_le_iff)
    then show ?thesis using p by simp
  qed
  have P2: "(of_int p :: rat) < 2 ^ bp"
  proof -
    have "(of_nat (nat p) :: rat) < of_nat (2 ^ bp)" using bpb(2) by (simp only: of_nat_less_iff)
    then show ?thesis using p by simp
  qed
  have Q1: "(2::rat) ^ (bq - 1) \<le> of_int q"
  proof -
    have "(of_nat (2 ^ (bq - 1)) :: rat) \<le> of_nat (nat q)" using bqb(1) by (simp only: of_nat_le_iff)
    then show ?thesis using q by simp
  qed
  have Q2: "(of_int q :: rat) < 2 ^ bq"
  proof -
    have "(of_nat (nat q) :: rat) < of_nat (2 ^ bq)" using bqb(2) by (simp only: of_nat_less_iff)
    then show ?thesis using q by simp
  qed
  have qpos: "(0::rat) < of_int q" using q by simp
  have upper: "\<bar>x\<bar> < pow2 (e + 1)"
  proof -
    have "pow2 (e + 1) = 2 ^ bp / 2 ^ (bq - 1)"
    proof -
      have "e + 1 = int bp - int (bq - 1)" using bq1 by (simp add: e_def)
      then show ?thesis by (simp only: pow2_diff pow2_of_nat)
    qed
    moreover have "of_int p / of_int q < (2::rat) ^ bp / 2 ^ (bq - 1)"
    proof -
      have "of_int p * (2::rat) ^ (bq - 1) < 2 ^ bp * of_int q"
      proof -
        have "of_int p * (2::rat) ^ (bq - 1) < 2 ^ bp * 2 ^ (bq - 1)" using P2 by simp
        also have "\<dots> \<le> 2 ^ bp * of_int q" using Q1 by simp
        finally show ?thesis .
      qed
      then show ?thesis using qpos by (simp add: field_simps)
    qed
    ultimately show ?thesis using x by simp
  qed
  have lower: "pow2 (e - 1) < \<bar>x\<bar>"
  proof -
    have "pow2 (e - 1) = 2 ^ (bp - 1) / 2 ^ bq"
    proof -
      have "e - 1 = int (bp - 1) - int bq" using bp1 by (simp add: e_def)
      then show ?thesis by (simp only: pow2_diff pow2_of_nat)
    qed
    moreover have "(2::rat) ^ (bp - 1) / 2 ^ bq < of_int p / of_int q"
    proof -
      have "(2::rat) ^ (bp - 1) * of_int q < of_int p * 2 ^ bq"
      proof -
        have "(2::rat) ^ (bp - 1) * of_int q < 2 ^ (bp - 1) * 2 ^ bq" using Q2 by simp
        also have "\<dots> \<le> of_int p * 2 ^ bq" using P1 by simp
        finally show ?thesis .
      qed
      then show ?thesis using qpos by (simp add: field_simps)
    qed
    ultimately show ?thesis using x by simp
  qed
  have b: "binade x = (if pow2 e \<le> \<bar>x\<bar> then e else e - 1)"
    by (simp add: binade_def pq Let_def e_def bp_def bq_def)
  show ?thesis
  proof (cases "pow2 e \<le> \<bar>x\<bar>")
    case True
    with b upper show ?thesis by simp
  next
    case False
    with b lower show ?thesis by simp
  qed
qed

lemma binade_unique:
  assumes "pow2 e \<le> \<bar>x\<bar>" "\<bar>x\<bar> < pow2 (e + 1)"
  shows "binade x = e"
proof -
  have "x \<noteq> 0" using assms(1) pow2_pos [of e] by auto
  then have b: "pow2 (binade x) \<le> \<bar>x\<bar>" "\<bar>x\<bar> < pow2 (binade x + 1)"
    using binade_bounds by simp_all
  have "pow2 e < pow2 (binade x + 1)" using assms(1) b(2) by simp
  then have 1: "e < binade x + 1" by (simp only: pow2_less_iff)
  have "pow2 (binade x) < pow2 (e + 1)" using assms(2) b(1) by simp
  then have 2: "binade x < e + 1" by (simp only: pow2_less_iff)
  from 1 2 show ?thesis by simp
qed

lemma round_half_even_near:
  assumes "\<bar>y - of_int n\<bar> < 1 / 2"
  shows "round_half_even y = n"
proof -
  have y: "of_int n - 1 / 2 < y" "y < of_int n + 1 / 2" using assms by linarith+
  show ?thesis
  proof (cases "of_int n \<le> y")
    case True
    then have f: "\<lfloor>y\<rfloor> = n" using y(2) by (intro floor_unique) simp_all
    then show ?thesis using y(2) by (simp add: round_half_even_def Let_def)
  next
    case False
    then have f: "\<lfloor>y\<rfloor> = n - 1" using y(1) by (intro floor_unique) simp_all
    have "1 / 2 < y - of_int (n - 1)" using y(1) by simp
    then show ?thesis using f by (simp add: round_half_even_def Let_def)
  qed
qed

lemma round_to_double_normal:
  assumes e: "pow2 e \<le> \<bar>x\<bar>" "\<bar>x\<bar> < pow2 (e + 1)"
    and range: "- 1022 \<le> e"
    and near: "\<bar>\<bar>x\<bar> / pow2 (e - 52) - of_int n\<bar> < 1 / 2"
    and fin: "of_int n * pow2 (e - 52) < pow2 1024"
  shows "round_to_double x = Finite (sgn x * (of_int n * pow2 (e - 52)))"
proof -
  have x0: "x \<noteq> 0" using e(1) pow2_pos [of e] by auto
  have b: "binade x = e" using e by (rule binade_unique)
  have m: "max e (- 1022) = e" using range by simp
  have r: "round_half_even (\<bar>x\<bar> / pow2 (e - 52)) = n" using near by (rule round_half_even_near)
  show ?thesis using x0 fin by (simp add: round_to_double_def b m r Let_def)
qed

section \<open>The matcher decides the language\<close>

lemma star_cons_iff:
  "c # s \<in> star A \<longleftrightarrow> (\<exists>u v. s = u @ v \<and> c # u \<in> A \<and> v \<in> star A)"
proof
  assume "c # s \<in> star A"
  then show "\<exists>u v. s = u @ v \<and> c # u \<in> A \<and> v \<in> star A"
  proof (induction "c # s" arbitrary: rule: star.induct)
    case (star_step u v)
    show ?case
    proof (cases u)
      case Nil
      with star_step show ?thesis by simp
    next
      case (Cons a u')
      with star_step.hyps(1,2,4) show ?thesis by auto
    qed
  qed
next
  assume "\<exists>u v. s = u @ v \<and> c # u \<in> A \<and> v \<in> star A"
  then obtain u v where "s = u @ v" "c # u \<in> A" "v \<in> star A" by blast
  then show "c # s \<in> star A" using star_step [of "c # u" A v] by simp
qed

lemma nullable_lang: "nullable r \<longleftrightarrow> [] \<in> lang ic r"
  by (induction r) (auto intro: star_empty)

lemma deriv_lang: "s \<in> lang ic (deriv ic c r) \<longleftrightarrow> c # s \<in> lang ic r"
proof (induction r arbitrary: s)
  case (Seq r1 r2)
  show ?case
  proof
    assume a: "s \<in> lang ic (deriv ic c (Seq r1 r2))"
    have "(\<exists>u v. s = u @ v \<and> c # u \<in> lang ic r1 \<and> v \<in> lang ic r2)
        \<or> (nullable r1 \<and> c # s \<in> lang ic r2)"
      using a Seq by (auto split: if_splits)
    then show "c # s \<in> lang ic (Seq r1 r2)"
    proof
      assume "\<exists>u v. s = u @ v \<and> c # u \<in> lang ic r1 \<and> v \<in> lang ic r2"
      then obtain u v where "s = u @ v" "c # u \<in> lang ic r1" "v \<in> lang ic r2" by blast
      then have "c # s = (c # u) @ v \<and> c # u \<in> lang ic r1 \<and> v \<in> lang ic r2" by simp
      then show ?thesis unfolding lang.simps by blast
    next
      assume "nullable r1 \<and> c # s \<in> lang ic r2"
      then have "c # s = [] @ (c # s) \<and> [] \<in> lang ic r1 \<and> c # s \<in> lang ic r2"
        using nullable_lang [of r1 ic] by simp
      then show ?thesis unfolding lang.simps by blast
    qed
  next
    assume "c # s \<in> lang ic (Seq r1 r2)"
    then obtain u v where uv: "c # s = u @ v" "u \<in> lang ic r1" "v \<in> lang ic r2" by auto
    show "s \<in> lang ic (deriv ic c (Seq r1 r2))"
    proof (cases u)
      case Nil
      with uv Seq nullable_lang [of r1 ic] show ?thesis by auto
    next
      case (Cons a u')
      with uv Seq nullable_lang [of r1 ic] show ?thesis by auto
    qed
  qed
next
  case (Plus r)
  show ?case
  proof
    assume "s \<in> lang ic (deriv ic c (Plus r))"
    then obtain u v where "s = u @ v" "c # u \<in> lang ic r" "v \<in> star (lang ic r)"
      using Plus by auto
    then have "c # s = (c # u) @ v \<and> c # u \<in> lang ic r \<and> v \<in> star (lang ic r)" by simp
    then show "c # s \<in> lang ic (Plus r)" unfolding lang.simps by blast
  next
    assume "c # s \<in> lang ic (Plus r)"
    then obtain u v where uv: "c # s = u @ v" "u \<in> lang ic r" "v \<in> star (lang ic r)" by auto
    show "s \<in> lang ic (deriv ic c (Plus r))"
    proof (cases u)
      case Nil
      with uv have "c # s \<in> star (lang ic r)" by simp
      then show ?thesis using Plus by (auto simp: star_cons_iff)
    next
      case (Cons a u')
      with uv Plus show ?thesis by auto
    qed
  qed
next
  case (Star r)
  then show ?case by (auto simp: star_cons_iff)
qed auto

lemma re_fullmatch_lang: "re_fullmatch ic r s \<longleftrightarrow> s \<in> lang ic r"
  by (induction s arbitrary: r) (simp_all add: nullable_lang deriv_lang)

section \<open>The number pattern\<close>

lemma star_singletons: "s \<in> star {[c] | c. P c} \<longleftrightarrow> list_all P s"
proof (induction s)
  case Nil
  show ?case by (simp add: star_empty)
next
  case (Cons a s)
  show ?case unfolding star_cons_iff using Cons by auto
qed

lemma lang_plus_digit: "s \<in> lang ic (Plus Digit) \<longleftrightarrow> s \<noteq> [] \<and> list_all is_decimal s"
proof -
  have "s \<in> lang ic (Plus Digit) \<longleftrightarrow>
        (\<exists>c v. s = c # v \<and> is_decimal c \<and> v \<in> star {[c] | c. is_decimal c})"
    by (auto intro: exI [of _ "[c]" for c])
  also have "\<dots> \<longleftrightarrow> (\<exists>c v. s = c # v \<and> is_decimal c \<and> list_all is_decimal v)"
    by (simp only: star_singletons)
  also have "\<dots> \<longleftrightarrow> s \<noteq> [] \<and> list_all is_decimal s"
    by (cases s) auto
  finally show ?thesis .
qed

lemma lang_number_pattern:
  "t \<in> lang False NUMBER_PATTERN \<longleftrightarrow> (\<exists>sg ds fr. number_form t sg ds fr)"
proof
  assume "t \<in> lang False NUMBER_PATTERN"
  then obtain sg ds fr where t: "t = sg @ ds @ fr"
    and sg: "sg \<in> lang False (Opt (Lit 45))"
    and ds: "ds \<in> lang False (Plus Digit)"
    and fr: "fr \<in> lang False (Opt (Seq (Lit 46) (Plus Digit)))"
    unfolding NUMBER_PATTERN_def lang.simps(6) by blast
  from sg have 1: "sg = [] \<or> sg = [45]" by (auto simp: lit_match_def)
  from ds have 2: "ds \<noteq> [] \<and> list_all is_decimal ds" using lang_plus_digit by blast
  from fr have "fr = [] \<or> (\<exists>fs. fr = 46 # fs \<and> fs \<in> lang False (Plus Digit))"
    by (auto simp: lit_match_def)
  then have 3: "fr = [] \<or> (\<exists>fs. fr = 46 # fs \<and> fs \<noteq> [] \<and> list_all is_decimal fs)"
    using lang_plus_digit by blast
  from t 1 2 3 show "\<exists>sg ds fr. number_form t sg ds fr"
    unfolding number_form_def by blast
next
  assume "\<exists>sg ds fr. number_form t sg ds fr"
  then obtain sg ds fr where nf: "number_form t sg ds fr" by blast
  then have sg: "sg \<in> lang False (Opt (Lit 45))"
    by (auto simp: number_form_def lit_match_def)
  from nf have ds: "ds \<in> lang False (Plus Digit)"
    using lang_plus_digit [of ds False] by (simp add: number_form_def)
  from nf have "fr = [] \<or> (\<exists>fs. fr = [46] @ fs \<and> fs \<in> lang False (Plus Digit))"
    using lang_plus_digit [of _ False] by (auto simp add: number_form_def)
  then have fr: "fr \<in> lang False (Opt (Seq (Lit 46) (Plus Digit)))"
    unfolding lang.simps(8) lang.simps(6) by (auto simp: lit_match_def)
  from nf have "t = sg @ ds @ fr" by (simp add: number_form_def)
  with sg ds fr show "t \<in> lang False NUMBER_PATTERN"
    unfolding NUMBER_PATTERN_def lang.simps(6) by blast
qed

section \<open>Digits, whitespace and \<open>strip\<close>\<close>

lemma not_decimal_specials:
  "\<not> is_decimal 43" "\<not> is_decimal 45" "\<not> is_decimal 46" "\<not> is_decimal 69"
  "\<not> is_decimal 95" "\<not> is_decimal 101" "\<not> is_decimal 105" "\<not> is_decimal 73"
  "\<not> is_decimal 110" "\<not> is_decimal 78"
  by (simp_all add: is_decimal_def decimal_value_def nd_zeros_def)

lemma spaces_not_decimal:
  "\<forall>w\<in>set [9, 10, 11, 12, 13, 28, 29, 30, 31, 32, 133, 160, 5760,
     8192, 8193, 8194, 8195, 8196, 8197, 8198, 8199, 8200, 8201, 8202,
     8232, 8233, 8239, 8287, 12288]. \<not> is_decimal w"
  by (simp add: is_decimal_def decimal_value_def nd_zeros_def)

lemma space_not_decimal: "py_isspace c \<Longrightarrow> \<not> is_decimal c"
  unfolding py_isspace_def using spaces_not_decimal by blast

lemma strip_id:
  assumes "t \<noteq> []" "\<not> py_isspace (hd t)" "\<not> py_isspace (last t)"
  shows "strip t = t"
proof -
  from assms have 1: "dropWhile py_isspace t = t" by (cases t) auto
  from assms have "rev t \<noteq> []" "\<not> py_isspace (hd (rev t))" by (simp_all add: hd_rev)
  then have 2: "dropWhile py_isspace (rev t) = rev t" by (cases "rev t") auto
  show ?thesis by (simp add: strip_def 1 2)
qed

lemma number_form_ends:
  assumes "number_form t sg ds fr"
  shows "t \<noteq> []" "\<not> py_isspace (hd t)" "\<not> py_isspace (last t)"
proof -
  from assms show "t \<noteq> []" by (auto simp: number_form_def)
  from assms obtain d ds' where ds: "ds = d # ds'" "is_decimal d"
    by (cases ds) (auto simp: number_form_def)
  have "hd t = 45 \<or> hd t = d" using assms ds by (auto simp: number_form_def)
  then show "\<not> py_isspace (hd t)"
    using space_not_decimal [of d] ds by (auto simp: py_isspace_def)
  have "is_decimal (last t)"
  proof (cases "fr = []")
    case True
    then have "last t = last ds" using assms by (auto simp: number_form_def)
    moreover have "last ds \<in> set ds" using ds by simp
    ultimately show ?thesis using assms by (auto simp: number_form_def list_all_iff)
  next
    case False
    then obtain fs where fs: "fr = 46 # fs" "fs \<noteq> []" "list_all is_decimal fs"
      using assms by (auto simp: number_form_def)
    then have "last t = last fs" using assms by (auto simp: number_form_def)
    moreover have "last fs \<in> set fs" using fs by simp
    ultimately show ?thesis using fs by (auto simp: list_all_iff)
  qed
  then show "\<not> py_isspace (last t)" using space_not_decimal by blast
qed

lemma strip_number_form: "number_form t sg ds fr \<Longrightarrow> strip t = t"
  using number_form_ends strip_id by blast

section \<open>A plain decimal is a float literal\<close>

lemma digits_in_star:
  assumes "\<And>c. is_decimal c \<Longrightarrow> [c] \<in> A"
  shows "list_all is_decimal s \<Longrightarrow> s \<in> star A"
proof (induction s)
  case Nil
  show ?case by (rule star_empty)
next
  case (Cons a s)
  then have "[a] \<in> A" "s \<in> star A" using assms by simp_all
  then have "[a] @ s \<in> star A" by (rule star_step)
  then show ?case by simp
qed

lemma lang_digitpart:
  assumes "ds \<noteq> []" "list_all is_decimal ds"
  shows "ds \<in> lang ic digitpart"
proof -
  from assms obtain d ds' where ds: "ds = d # ds'" "is_decimal d" "list_all is_decimal ds'"
    by (cases ds) auto
  have "\<And>c. is_decimal c \<Longrightarrow> [c] \<in> lang ic (Seq (Opt (Lit 95)) Digit)"
  proof -
    fix c assume "is_decimal c"
    then have "[c] = [] @ [c] \<and> [] \<in> lang ic (Opt (Lit 95)) \<and> [c] \<in> lang ic Digit" by simp
    then show "[c] \<in> lang ic (Seq (Opt (Lit 95)) Digit)" unfolding lang.simps(6) by blast
  qed
  then have "ds' \<in> star (lang ic (Seq (Opt (Lit 95)) Digit))"
    using ds(3) by (rule digits_in_star)
  then have "ds = [d] @ ds' \<and> [d] \<in> lang ic Digit \<and> ds' \<in> lang ic (Star (Seq (Opt (Lit 95)) Digit))"
    using ds by simp
  then show ?thesis unfolding digitpart_def lang.simps(6) by blast
qed

lemma lang_seqI: "u \<in> lang ic r \<Longrightarrow> v \<in> lang ic s \<Longrightarrow> u @ v \<in> lang ic (Seq r s)"
  by auto

lemma number_form_float_grammar:
  assumes "number_form t sg ds fr"
  shows "t \<in> lang False floatvalue_rx"
proof -
  from assms have t: "t = sg @ ds @ fr" by (simp add: number_form_def)
  from assms have sg: "sg \<in> lang False (Opt sign_rx)"
    by (auto simp: number_form_def sign_rx_def)
  from assms have ds: "ds \<in> lang False digitpart"
    by (simp add: number_form_def lang_digitpart)
  have num: "ds @ fr \<in> lang False number_rx"
  proof (cases "fr = []")
    case True
    have "ds @ [] \<in> lang False (Seq digitpart (Opt (Lit 46)))"
      using ds by (intro lang_seqI) simp_all
    then show ?thesis using True by (simp add: number_rx_def)
  next
    case False
    then obtain fs where fs: "fr = [46] @ fs" "fs \<noteq> []" "list_all is_decimal fs"
      using assms by (auto simp: number_form_def)
    have "ds @ ([46] @ fs) \<in> lang False (Seq (Opt digitpart) (Seq (Lit 46) digitpart))"
      using ds fs lang_digitpart [of fs False]
      by (intro lang_seqI) (simp_all add: lit_match_def)
    then show ?thesis using fs by (simp add: number_rx_def)
  qed
  have "(ds @ fr) @ [] \<in> lang False (Seq number_rx (Opt exponent_rx))"
    using num by (intro lang_seqI) simp_all
  then have "ds @ fr \<in> lang False (Alt (Seq number_rx (Opt exponent_rx))
         (Alt (Seq (any_case (ascii ''inf'')) (Opt (any_case (ascii ''inity''))))
              (any_case (ascii ''nan''))))"
    by simp
  with sg have "sg @ (ds @ fr) \<in> lang False floatvalue_rx"
    unfolding floatvalue_rx_def by (rule lang_seqI)
  with t show ?thesis by simp
qed

lemma digits_value_snoc:
  "digits_value (s @ [c]) =
     (case decimal_value c of None \<Rightarrow> digits_value s | Some d \<Rightarrow> 10 * digits_value s + d)"
  unfolding digits_value_def by (simp split: option.split)

lemma digits_value_append:
  "list_all is_decimal b \<Longrightarrow>
     digits_value (a @ b) = digits_value a * 10 ^ length b + digits_value b"
proof (induction b rule: rev_induct)
  case Nil
  show ?case by (simp add: digits_value_def)
next
  case (snoc c b)
  then obtain d where d: "decimal_value c = Some d" by (auto simp: is_decimal_def)
  have "digits_value (a @ b @ [c]) = 10 * digits_value (a @ b) + d"
    using digits_value_snoc [of "a @ b" c] d by simp
  also have "\<dots> = 10 * (digits_value a * 10 ^ length b + digits_value b) + d"
    using snoc by simp
  also have "\<dots> = digits_value a * 10 ^ length (b @ [c]) + digits_value (b @ [c])"
    using digits_value_snoc [of b c] d by (simp add: algebra_simps)
  finally show ?case by simp
qed

lemma count_digits_all: "list_all is_decimal s \<Longrightarrow> count_digits s = length s"
  by (simp add: count_digits_def list_all_iff)

section \<open>The value \<open>float()\<close> gives a plain decimal\<close>

lemma number_form_body:
  assumes "number_form t sg ds fr"
  shows "(t \<noteq> [] \<and> hd t = 45) = (sg = [45])"
    and "(if t \<noteq> [] \<and> (hd t = 43 \<or> hd t = 45) then tl t else t) = ds @ fr"
    and "strip_sign t = ds @ fr"
proof -
  from assms obtain d ds' where ds: "ds = d # ds'" "is_decimal d"
    by (cases ds) (auto simp: number_form_def)
  then have d: "d \<noteq> 45" "d \<noteq> 43" using not_decimal_specials by auto
  from assms have t: "t = sg @ ds @ fr" "sg = [] \<or> sg = [45]" by (auto simp: number_form_def)
  show "(t \<noteq> [] \<and> hd t = 45) = (sg = [45])" using t ds d by auto
  show "(if t \<noteq> [] \<and> (hd t = 43 \<or> hd t = 45) then tl t else t) = ds @ fr"
    using t ds d by auto
  show "strip_sign t = ds @ fr" using t ds d by (auto simp: strip_sign_def)
qed

lemma number_form_chars:
  assumes "number_form t sg ds fr"
  shows "\<forall>c\<in>set (ds @ fr). is_decimal c \<or> c = 46"
  using assms by (auto simp: number_form_def list_all_iff)

lemma number_form_not_special:
  assumes "number_form t sg ds fr"
  shows "map ascii_lower (ds @ fr) \<noteq> ascii ''inf''"
    and "map ascii_lower (ds @ fr) \<noteq> ascii ''infinity''"
    and "map ascii_lower (ds @ fr) \<noteq> ascii ''nan''"
proof -
  from assms obtain d ds' where ds: "ds = d # ds'" "is_decimal d"
    by (cases ds) (auto simp: number_form_def)
  have l: "ascii_lower d \<noteq> 105" "ascii_lower d \<noteq> 110"
    using ds(2) not_decimal_specials by (auto simp: ascii_lower_def split: if_splits)
  show "map ascii_lower (ds @ fr) \<noteq> ascii ''inf''" using ds l by (simp add: ascii_def)
  show "map ascii_lower (ds @ fr) \<noteq> ascii ''infinity''" using ds l by (simp add: ascii_def)
  show "map ascii_lower (ds @ fr) \<noteq> ascii ''nan''" using ds l by (simp add: ascii_def)
qed

lemma number_form_split:
  assumes "number_form t sg ds fr"
  shows "takeWhile (\<lambda>c. c \<noteq> 101 \<and> c \<noteq> 69) (ds @ fr) = ds @ fr"
    and "takeWhile (\<lambda>c. c \<noteq> 46) (ds @ fr) = ds"
    and "takeWhile is_decimal (ds @ fr) = ds"
    and "dropWhile is_decimal (ds @ fr) = fr"
proof -
  have "\<forall>c\<in>set (ds @ fr). c \<noteq> 101 \<and> c \<noteq> 69"
    using number_form_chars [OF assms] not_decimal_specials by auto
  then show "takeWhile (\<lambda>c. c \<noteq> 101 \<and> c \<noteq> 69) (ds @ fr) = ds @ fr"
    by (simp only: takeWhile_eq_all_conv)
  have ds: "\<forall>c\<in>set ds. is_decimal c" using assms by (simp add: number_form_def list_all_iff)
  then have ds46: "\<forall>c\<in>set ds. c \<noteq> 46" using not_decimal_specials by auto
  from assms have fr: "fr = [] \<or> (\<exists>fs. fr = 46 # fs)" by (auto simp: number_form_def)
  show "takeWhile (\<lambda>c. c \<noteq> 46) (ds @ fr) = ds"
    using ds46 fr by (auto simp: takeWhile_append2)
  show "takeWhile is_decimal (ds @ fr) = ds"
    using ds fr not_decimal_specials by (auto simp: takeWhile_append2)
  show "dropWhile is_decimal (ds @ fr) = fr"
    using ds fr not_decimal_specials by (auto simp: dropWhile_append2)
qed

lemma float_value_number_form:
  assumes "number_form t sg ds fr"
  shows "float_value t = round_to_double (spec_decimal_number t)"
proof -
  note b = number_form_body [OF assms]
  note s = number_form_split [OF assms]
  note n = number_form_not_special [OF assms]
  from assms have fs: "list_all is_decimal (tl fr)" by (auto simp: number_form_def)
  have drop_e: "drop (Suc (length (ds @ fr))) (ds @ fr) = []" by simp
  have drop_f: "drop (Suc (length ds)) (ds @ fr) = tl fr" by (cases fr) simp_all
  have p10g: "pow10 (0 - int k) = 1 / 10 ^ k" for k
    by (simp add: pow10_def)
  have p10: "pow10 (int (digits_value []) - int (length (tl fr))) = 1 / 10 ^ length (tl fr)"
    using p10g [of "length (tl fr)"] by (simp only: digits_value_def foldl_Nil of_nat_0)
  have mag: "(of_nat (digits_value (ds @ tl fr)) :: rat) * (1 / 10 ^ length (tl fr))
      = of_nat (digits_value ds) + of_nat (digits_value (tl fr)) / 10 ^ length (tl fr)"
    using digits_value_append [OF fs, of ds] by (simp add: field_simps)
  have "float_value t =
      round_to_double (if sg = [45]
        then - (of_nat (digits_value (ds @ tl fr)) * (1 / 10 ^ length (tl fr)))
        else of_nat (digits_value (ds @ tl fr)) * (1 / 10 ^ length (tl fr)))"
    unfolding float_value_def Let_def b(1) b(2) s(1) s(2) drop_e drop_f
    using n p10 count_digits_all [OF fs] by simp
  also have "\<dots> = round_to_double (spec_decimal_number t)"
    unfolding spec_decimal_number_def Let_def b(1) b(3) s(3) s(4) mag by simp
  finally show ?thesis .
qed

section \<open>The validators follow the specification\<close>

lemma spec_plain_decimal_iff:
  "spec_plain_decimal t \<longleftrightarrow> (\<exists>sg ds fr. number_form t sg ds fr)"
proof
  assume sp: "spec_plain_decimal t"
  define sg where "sg = (if t \<noteq> [] \<and> hd t = 45 then [45] else [] :: pystr)"
  define ds where "ds = takeWhile is_decimal (strip_sign t)"
  define fr where "fr = dropWhile is_decimal (strip_sign t)"
  have t: "t = sg @ ds @ fr"
    unfolding sg_def ds_def fr_def by (cases t) (auto simp: strip_sign_def)
  have ds: "ds \<noteq> []" "list_all is_decimal ds"
    using sp unfolding ds_def spec_plain_decimal_def Let_def
    by (auto simp: list_all_iff dest: set_takeWhileD)
  have "fr = [] \<or> (hd fr = 46 \<and> tl fr \<noteq> [] \<and> list_all is_decimal (tl fr))"
    using sp unfolding fr_def spec_plain_decimal_def Let_def by blast
  then have fr: "fr = [] \<or> (\<exists>fs. fr = 46 # fs \<and> fs \<noteq> [] \<and> list_all is_decimal fs)"
    by (cases fr) auto
  have "number_form t sg ds fr"
    unfolding number_form_def using t ds fr by (auto simp: sg_def)
  then show "\<exists>sg ds fr. number_form t sg ds fr" by blast
next
  assume "\<exists>sg ds fr. number_form t sg ds fr"
  then obtain sg ds fr where nf: "number_form t sg ds fr" by blast
  note b = number_form_body [OF nf]
  note s = number_form_split [OF nf]
  from nf have "ds \<noteq> []"
    and "fr = [] \<or> (hd fr = 46 \<and> tl fr \<noteq> [] \<and> list_all is_decimal (tl fr))"
    by (auto simp: number_form_def)
  then show "spec_plain_decimal t"
    unfolding spec_plain_decimal_def Let_def b(3) s(3) s(4) by blast
qed

lemma fullmatch_number_pattern:
  "re_fullmatch False NUMBER_PATTERN t = spec_plain_decimal t"
  by (simp only: re_fullmatch_lang lang_number_pattern spec_plain_decimal_iff)

lemma py_float_plain_decimal:
  assumes "spec_plain_decimal t"
  shows "py_float t = Inr (spec_parse t)"
proof -
  from assms obtain sg ds fr where nf: "number_form t sg ds fr"
    using spec_plain_decimal_iff by blast
  have "strip t = t" using nf by (rule strip_number_form)
  moreover have "re_fullmatch False floatvalue_rx t"
    using number_form_float_grammar [OF nf] by (simp only: re_fullmatch_lang)
  ultimately show ?thesis
    using float_value_number_form [OF nf] by (simp add: py_float_def spec_parse_def)
qed

lemma strip_empty_iff: "(s = [] \<or> strip s = []) = (strip s = [])"
  by (auto simp: strip_def)

lemma convert_and_check_plain_decimal:
  assumes "spec_plain_decimal t"
  shows "convert_and_check t =
     Inr (let v = spec_parse t
          in if dle v (Finite 0) then (False, Some ''Value must be greater than 0.'', None)
             else if dlt (Finite 99999) v then (False, Some ''Value cannot exceed 99,999.'', None)
             else (True, None, Some v))"
  unfolding convert_and_check_def py_float_plain_decimal [OF assms] by (simp add: Let_def)

lemma validate_kwh_input_refines: "validate_kwh_input s = Inr (spec_validate s)"
proof (cases "strip s = []")
  case True
  then show ?thesis by (simp add: validate_kwh_input_def spec_validate_def)
next
  case False
  then have ne: "s \<noteq> []" by (auto simp: strip_def)
  show ?thesis
  proof (cases "spec_plain_decimal (strip s)")
    case True
    then show ?thesis
      using False ne convert_and_check_plain_decimal [OF True]
      by (simp add: validate_kwh_input_def spec_validate_def fullmatch_number_pattern Let_def)
  next
    case np: False
    then show ?thesis
      using False ne
      by (simp add: validate_kwh_input_def spec_validate_def fullmatch_number_pattern Let_def)
  qed
qed

lemma app1_validate_kwh_input_refines:
  "app1_validate_kwh_input s =
     Inr (if strip s \<noteq> [] \<and> app1_guard (strip s)
          then (False, Some ''Invalid input detected.'', None)
          else spec_validate s)"
proof (cases "strip s = []")
  case True
  then show ?thesis by (simp add: app1_validate_kwh_input_def spec_validate_def)
next
  case False
  then have ne: "s \<noteq> []" by (auto simp: strip_def)
  show ?thesis
  proof (cases "app1_guard (strip s)")
    case True
    then show ?thesis using False ne
      by (auto simp: app1_validate_kwh_input_def app1_guard_def Let_def)
  next
    case ng: False
    have "app1_validate_kwh_input s = validate_kwh_input s"
      using ng False ne
      by (simp add: app1_validate_kwh_input_def validate_kwh_input_def app1_guard_def Let_def)
    then show ?thesis using ng validate_kwh_input_refines by simp
  qed
qed

section \<open>Evaluating the model on ASCII input\<close>

lemma decimal_value_ascii: "48 \<le> c \<Longrightarrow> c \<le> 57 \<Longrightarrow> decimal_value c = Some (c - 48)"
  by (simp add: decimal_value_def nd_zeros_def)

lemma decimal_value_below: "c < 48 \<Longrightarrow> decimal_value c = None"
  by (simp add: decimal_value_def nd_zeros_def)

lemma decimal_value_between: "57 < c \<Longrightarrow> c < 1632 \<Longrightarrow> decimal_value c = None"
  by (simp add: decimal_value_def nd_zeros_def)

lemma is_decimal_ascii: "c < 1632 \<Longrightarrow> is_decimal c = (48 \<le> c \<and> c \<le> 57)"
  using decimal_value_ascii [of c] decimal_value_below [of c] decimal_value_between [of c]
  by (cases "c < 48"; cases "57 < c") (auto simp: is_decimal_def)

lemma ascii_simps: "ascii [] = []" "ascii (c # s) = of_char c # ascii s"
  by (simp_all add: ascii_def)

section \<open>Order facts of the floats\<close>

lemma round_to_double_not_nan: "round_to_double x \<noteq> NaN"
  by (simp add: round_to_double_def Let_def)

lemma not_dle_imp_dlt: "v \<noteq> NaN \<Longrightarrow> \<not> dle v (Finite b) \<Longrightarrow> dlt (Finite b) v"
  by (cases v) simp_all

lemma not_dlt_imp_dle: "v \<noteq> NaN \<Longrightarrow> \<not> dlt (Finite b) v \<Longrightarrow> dle v (Finite b)"
  by (cases v) simp_all

section \<open>Claims about the validator\<close>

lemma strip_dashes5: "strip (ascii ''--5'') = ascii ''--5''"
  by (simp add: strip_def ascii_simps py_isspace_def)

lemma guard_dashes5: "app1_guard (ascii ''--5'')"
  by (simp add: app1_guard_def re_search_def SQL_PATTERN_def word_def ascii_simps lit_match_def
      ci_variants_def ascii_lower_def)

lemma not_plain_dashes5: "\<not> spec_plain_decimal (ascii ''--5'')"
  by (simp add: spec_plain_decimal_def strip_sign_def ascii_simps is_decimal_ascii)

lemma nonempty_dashes5: "ascii ''--5'' \<noteq> []"
  by (simp add: ascii_simps)

lemma strip_padded: "strip (ascii '' 123.45 '') = ascii ''123.45''"
  by (simp add: strip_def ascii_simps py_isspace_def)

lemma plain_12345: "spec_plain_decimal (ascii ''123.45'')"
  by (simp add: spec_plain_decimal_def strip_sign_def ascii_simps is_decimal_ascii)

lemma number_12345: "spec_decimal_number (ascii ''123.45'') = 12345 / 100"
  by (simp add: spec_decimal_number_def strip_sign_def ascii_simps is_decimal_ascii
      digits_value_def decimal_value_ascii)

lemma round_12345: "round_to_double (12345 / 100) = Finite (8687021468732621 / 70368744177664)"
  using round_to_double_normal [of 6 "12345 / 100" 8687021468732621]
  by (simp add: pow2_def)

lemma parse_12345: "spec_parse (ascii ''123.45'') = Finite (8687021468732621 / 70368744177664)"
  by (simp only: spec_parse_def number_12345 round_12345)

lemma nonempty_12345: "ascii ''123.45'' \<noteq> []"
  by (simp add: ascii_simps)


lemma spec_validate_padded:
  "spec_validate (ascii '' 123.45 '') =
     (True, None, Some (Finite (8687021468732621 / 70368744177664)))"
  by (simp add: spec_validate_def strip_padded plain_12345 parse_12345 nonempty_12345)




lemma spec_validate_shape:
  "\<exists>flag msg val. spec_validate s = (flag, msg, val) \<and>
      (flag \<longleftrightarrow> msg = None) \<and> (flag \<longleftrightarrow> val \<noteq> None) \<and>
      (case val of None \<Rightarrow> True | Some v \<Rightarrow> dlt (Finite 0) v \<and> dle v (Finite 99999))"
proof -
  let ?v = "spec_parse (strip s)"
  have nn: "?v \<noteq> NaN" by (simp add: spec_parse_def round_to_double_not_nan)
  show ?thesis
  proof (cases "strip s = [] \<or> \<not> spec_plain_decimal (strip s) \<or> dle ?v (Finite 0)
      \<or> dlt (Finite 99999) ?v")
    case True
    then show ?thesis by (auto simp: spec_validate_def Let_def)
  next
    case False
    then have "spec_validate s = (True, None, Some ?v)"
      by (simp add: spec_validate_def Let_def)
    moreover have "dlt (Finite 0) ?v" using False nn by (intro not_dle_imp_dlt) simp_all
    moreover have "dle ?v (Finite 99999)" using False nn by (intro not_dlt_imp_dle) simp_all
    ultimately show ?thesis by auto
  qed
qed

text \<open>
  C4: for every input string both validators return a triple in which the flag is true
  exactly when the message is absent and exactly when a value is present, and a value
  that is present lies in \<open>0 < v \<le> 99999\<close>.
\<close>

theorem C4_outcome_exclusive_and_in_range:
  "(\<exists>flag msg val. validate_kwh_input s = Inr (flag, msg, val) \<and>
      (flag \<longleftrightarrow> msg = None) \<and> (flag \<longleftrightarrow> val \<noteq> None) \<and>
      (case val of None \<Rightarrow> True | Some v \<Rightarrow> dlt (Finite 0) v \<and> dle v (Finite 99999))) \<and>
   (\<exists>flag msg val. app1_validate_kwh_input s = Inr (flag, msg, val) \<and>
      (flag \<longleftrightarrow> msg = None) \<and> (flag \<longleftrightarrow> val \<noteq> None) \<and>
      (case val of None \<Rightarrow> True | Some v \<Rightarrow> dlt (Finite 0) v \<and> dle v (Finite 99999)))"
proof (cases "strip s \<noteq> [] \<and> app1_guard (strip s)")
  case True
  then have "app1_validate_kwh_input s = Inr (False, Some ''Invalid input detected.'', None)"
    by (simp add: app1_validate_kwh_input_refines)
  then show ?thesis
    using spec_validate_shape [of s] by (auto simp: validate_kwh_input_refines)
next
  case False
  then have "app1_validate_kwh_input s = Inr (spec_validate s)"
    by (auto simp: app1_validate_kwh_input_refines)
  then show ?thesis
    using spec_validate_shape [of s] by (auto simp: validate_kwh_input_refines)
qed

theorem C4_outcome_exclusive_and_in_range_witness:
  "validate_kwh_input (ascii '' 123.45 '') =
     Inr (True, None, Some (Finite (8687021468732621 / 70368744177664))) \<and>
   dlt (Finite 0) (Finite (8687021468732621 / 70368744177664)) \<and>
   dle (Finite (8687021468732621 / 70368744177664)) (Finite 99999)"
proof -
  have v: "validate_kwh_input (ascii '' 123.45 '') =
      Inr (True, None, Some (Finite (8687021468732621 / 70368744177664)))"
    by (simp only: validate_kwh_input_refines spec_validate_padded)
  from C4_outcome_exclusive_and_in_range [of "ascii '' 123.45 ''"]
  show ?thesis unfolding v by simp
qed

lemma spec_validate_message:
  "(\<exists>v. spec_validate s = (True, None, Some v)) \<or>
   (\<exists>m. spec_validate s = (False, Some m, None) \<and> m \<in> set contractual_messages)"
  by (simp add: spec_validate_def contractual_messages_def Let_def)

lemma strip_tag: "strip (ascii ''<b>'') = ascii ''<b>''"
  by (simp add: strip_def ascii_simps py_isspace_def)

lemma guard_tag: "app1_guard (ascii ''<b>'')"
  by (simp add: app1_guard_def re_search_def XSS_PATTERN_def word_def ascii_simps lit_match_def
      ci_variants_def ascii_lower_def)

lemma nonempty_tag: "ascii ''<b>'' \<noteq> []"
  by (simp add: ascii_simps)

text \<open>
  C3, as stated, fails for the validator of \<open>app1.py\<close>: it rejects \<open><b>\<close> with
  "Invalid input detected.", which is none of the four strings.
\<close>

theorem C3_counterexample:
  "app1_validate_kwh_input (ascii ''<b>'') = Inr (False, Some ''Invalid input detected.'', None) \<and>
   ''Invalid input detected.'' \<notin> set contractual_messages"
  by (simp add: app1_validate_kwh_input_refines strip_tag guard_tag nonempty_tag
      contractual_messages_def)

text \<open>
  C3 (amended): for every input string, a rejection of the validator of \<open>app.py\<close>
  carries one of the four contractual strings, and a rejection of the validator of
  \<open>app1.py\<close> carries one of these four or "Invalid input detected.".
\<close>

theorem C3_rejection_messages:
  "((\<exists>v. validate_kwh_input s = Inr (True, None, Some v)) \<or>
    (\<exists>m. validate_kwh_input s = Inr (False, Some m, None) \<and> m \<in> set contractual_messages)) \<and>
   ((\<exists>v. app1_validate_kwh_input s = Inr (True, None, Some v)) \<or>
    (\<exists>m. app1_validate_kwh_input s = Inr (False, Some m, None) \<and>
         m \<in> set (contractual_messages @ [''Invalid input detected.''])))"
proof
  show "(\<exists>v. validate_kwh_input s = Inr (True, None, Some v)) \<or>
    (\<exists>m. validate_kwh_input s = Inr (False, Some m, None) \<and> m \<in> set contractual_messages)"
    using spec_validate_message [of s] by (simp add: validate_kwh_input_refines)
  show "(\<exists>v. app1_validate_kwh_input s = Inr (True, None, Some v)) \<or>
    (\<exists>m. app1_validate_kwh_input s = Inr (False, Some m, None) \<and>
         m \<in> set (contractual_messages @ [''Invalid input detected.'']))"
  proof (cases "strip s \<noteq> [] \<and> app1_guard (strip s)")
    case True
    then show ?thesis by (simp add: app1_validate_kwh_input_refines)
  next
    case False
    then have "app1_validate_kwh_input s = Inr (spec_validate s)"
      by (auto simp: app1_validate_kwh_input_refines)
    then show ?thesis using spec_validate_message [of s] by auto
  qed
qed

theorem C3_rejection_messages_witness:
  "validate_kwh_input (ascii ''--5'') = Inr (False, Some ''Please enter a valid number.'', None) \<and>
   ''Please enter a valid number.'' \<in> set contractual_messages \<and>
   app1_validate_kwh_input (ascii ''--5'') = Inr (False, Some ''Invalid input detected.'', None)"
proof -
  have a: "validate_kwh_input (ascii ''--5'') = Inr (False, Some ''Please enter a valid number.'', None)"
    by (simp add: validate_kwh_input_refines spec_validate_def strip_dashes5 not_plain_dashes5
        nonempty_dashes5)
  have b: "app1_validate_kwh_input (ascii ''--5'') = Inr (False, Some ''Invalid input detected.'', None)"
    by (simp add: app1_validate_kwh_input_refines strip_dashes5 guard_dashes5 nonempty_dashes5)
  from C3_rejection_messages [of "ascii ''--5''"] a b show ?thesis
    by (simp add: contractual_messages_def)
qed

end
